theory Spec2Isabelle
  imports Complex_Main "HOL-Library.Sublist" "HOL-Library.AList" "HOL-Library.Multiset"
    "HOL-Library.Product_Lexorder"
begin

section \<open>Conventions of the embedding\<close>

text \<open>
  The development embeds \<^verbatim>\<open>scripts/trace_parser.py\<close> (class \<^verbatim>\<open>TraceParser\<close>) and
  \<^verbatim>\<open>scripts/trace_statistics.py\<close> (class \<^verbatim>\<open>TraceStatistics\<close>).

  \<^item> Python floats are read as the rational numbers they denote and float arithmetic as
    exact arithmetic on \<^typ>\<open>rat\<close>: rounding, NaN and infinities are outside the model.
  \<^item> A raised exception is the \<open>Inl\<close> branch of a sum type.
  \<^item> A Python \<^verbatim>\<open>dict\<close> whose iteration order matters is an association list kept the
    way \<^verbatim>\<open>dict\<close> keeps it: a new key goes to the end, an existing key keeps its
    position and takes the new value (\<^const>\<open>AList.update\<close>).
  \<^item> Strings are byte strings; \<^verbatim>\<open>str.lower\<close> is modelled on the ASCII letters.
\<close>

datatype error =
  KeyError string
  | IndexError
  | ValueError

section \<open>Python primitives used by the two modules\<close>

text \<open>\<^verbatim>\<open>xs[i]\<close>: a negative index counts from the end, an index out of range raises.\<close>

definition py_index :: "'a list \<Rightarrow> int \<Rightarrow> error + 'a" where
  "py_index xs i =
     (if 0 \<le> i \<and> i < int (length xs) then Inr (xs ! nat i)
      else if i < 0 \<and> - int (length xs) \<le> i then Inr (xs ! nat (int (length xs) + i))
      else Inl IndexError)"

text \<open>\<^verbatim>\<open>int(x)\<close> on a float truncates towards zero.\<close>

definition py_int :: "rat \<Rightarrow> int" where
  "py_int x = (if 0 \<le> x then \<lfloor>x\<rfloor> else \<lceil>x\<rceil>)"

text \<open>\<^verbatim>\<open>x.is_integer()\<close>.\<close>

definition is_integer :: "rat \<Rightarrow> bool" where
  "is_integer x = (of_int \<lfloor>x\<rfloor> = x)"

text \<open>\<^verbatim>\<open>max(xs)\<close> on a list the caller knows to be non-empty (on the empty list
  Python raises; every call site below guards it, and the model returns 0 there).\<close>

fun py_max :: "rat list \<Rightarrow> rat" where
  "py_max [] = 0"
| "py_max (x # xs) = fold max xs x"

fun py_min :: "rat list \<Rightarrow> rat" where
  "py_min [] = 0"
| "py_min (x # xs) = fold min xs x"

text \<open>A dictionary built by assigning the pairs in order.\<close>

definition dict_of :: "('k \<times> 'v) list \<Rightarrow> ('k \<times> 'v) list" where
  "dict_of kvs = fold (\<lambda>kv d. AList.update (fst kv) (snd kv) d) kvs []"

section \<open>\<^verbatim>\<open>trace_statistics.py\<close>\<close>

text \<open>
  The functions of Python's \<^verbatim>\<open>statistics\<close> module that \<^verbatim>\<open>TraceStatistics\<close> calls are library
  code, not code of this repository: they are a parameter of the model.
  \<open>st_quantiles data n\<close> is \<^verbatim>\<open>statistics.quantiles(data, n=n)\<close>.
\<close>

record py_statistics =
  st_mean :: "rat list \<Rightarrow> rat"
  st_median :: "rat list \<Rightarrow> rat"
  st_stdev :: "rat list \<Rightarrow> rat"
  st_variance :: "rat list \<Rightarrow> rat"
  st_quantiles :: "rat list \<Rightarrow> nat \<Rightarrow> rat list"

record basic_stats =
  bs_count :: nat
  bs_mean :: rat
  bs_median :: rat
  bs_min :: rat
  bs_max :: rat
  bs_range :: rat
  bs_std_dev :: rat
  bs_variance :: rat

definition calculate_basic_stats :: "py_statistics \<Rightarrow> rat list \<Rightarrow> basic_stats" where
  "calculate_basic_stats lib values =
     (if values = [] then
        \<lparr>bs_count = 0, bs_mean = 0, bs_median = 0, bs_min = 0, bs_max = 0,
         bs_range = 0, bs_std_dev = 0, bs_variance = 0\<rparr>
      else
        \<lparr>bs_count = length values,
         bs_mean = st_mean lib values,
         bs_median = st_median lib values,
         bs_min = py_min values,
         bs_max = py_max values,
         bs_range = py_max values - py_min values,
         bs_std_dev = (if length values > 1 then st_stdev lib values else 0),
         bs_variance = (if length values > 1 then st_variance lib values else 0)\<rparr>)"

text \<open>One iteration of the loop of \<^verbatim>\<open>calculate_percentiles\<close>: the value stored for the
  percentile \<open>p\<close>, from the sorted values.\<close>

definition percentile_value :: "rat list \<Rightarrow> rat \<Rightarrow> error + rat" where
  "percentile_value sorted_values p =
     (let index = (p / 100) * (of_nat (length sorted_values) - 1) in
      if is_integer index then py_index sorted_values (py_int index)
      else
        (case py_index sorted_values (py_int index) of
           Inl e \<Rightarrow> Inl e
         | Inr lower \<Rightarrow>
             (case py_index sorted_values (py_int index + 1) of
                Inl e \<Rightarrow> Inl e
              | Inr upper \<Rightarrow> Inr (lower + (upper - lower) * (index - of_int (py_int index))))))"

text \<open>The loop \<^verbatim>\<open>for p in percentiles: result[f'p{p}'] = ...\<close>; the key \<^verbatim>\<open>f'p{p}'\<close> is
  represented by \<open>p\<close> itself. The first exception ends the loop.\<close>

fun percentiles_loop ::
  "rat list \<Rightarrow> rat list \<Rightarrow> (rat \<times> rat) list \<Rightarrow> error + (rat \<times> rat) list" where
  "percentiles_loop sorted_values [] result = Inr result"
| "percentiles_loop sorted_values (p # ps) result =
     (case percentile_value sorted_values p of
        Inl e \<Rightarrow> Inl e
      | Inr v \<Rightarrow> percentiles_loop sorted_values ps (AList.update p v result))"

definition calculate_percentiles ::
  "rat list \<Rightarrow> rat list option \<Rightarrow> error + (rat \<times> rat) list" where
  "calculate_percentiles values percentiles_arg =
     (let percentiles = (case percentiles_arg of None \<Rightarrow> [50, 90, 95, 99] | Some ps \<Rightarrow> ps) in
      if values = [] then Inr (dict_of (map (\<lambda>p. (p, 0)) percentiles))
      else percentiles_loop (sort values) percentiles [])"

definition calculate_coefficient_of_variation :: "py_statistics \<Rightarrow> rat list \<Rightarrow> rat" where
  "calculate_coefficient_of_variation lib values =
     (if values = [] then 0
      else
        let mean = st_mean lib values in
        if mean = 0 then 0
        else
          let std_dev = (if length values > 1 then st_stdev lib values else 0)
          in (std_dev / mean) * 100)"

record outlier_report =
  ol_count :: nat
  ol_values :: "rat list"
  ol_percentage :: rat

record stability_report =
  sr_stability :: string
  sr_reason :: string
  sr_coefficient_of_variation :: "rat option"
  sr_outliers :: "outlier_report option"
  sr_stats :: "basic_stats option"

text \<open>For the empty list the source returns a dictionary with the keys \<^verbatim>\<open>stability\<close> and
  \<^verbatim>\<open>reason\<close> only: the other three fields are \<open>None\<close>.\<close>

definition analyze_performance_stability ::
  "py_statistics \<Rightarrow> rat list \<Rightarrow> error + stability_report" where
  "analyze_performance_stability lib durations =
     (if durations = [] then
        Inr \<lparr>sr_stability = ''unknown'', sr_reason = ''no data'',
             sr_coefficient_of_variation = None, sr_outliers = None, sr_stats = None\<rparr>
      else
        let cv = calculate_coefficient_of_variation lib durations;
            stats = calculate_basic_stats lib durations;
            stability =
              (if cv < 10 then ''excellent'' else if cv < 20 then ''good''
               else if cv < 30 then ''fair'' else ''poor'');
            reason =
              (if cv < 10 then ''low variability (CV < 10%)''
               else if cv < 20 then ''moderate variability (CV < 20%)''
               else if cv < 30 then ''high variability (CV < 30%)''
               else ''very high variability (CV >= 30%)'')
        in
        (case (if length durations \<ge> 4 then py_index (st_quantiles lib durations 4) 0
               else Inr (py_min durations)) of
           Inl e \<Rightarrow> Inl e
         | Inr q1 \<Rightarrow>
             (case (if length durations \<ge> 4 then py_index (st_quantiles lib durations 4) 2
                    else Inr (py_max durations)) of
                Inl e \<Rightarrow> Inl e
              | Inr q3 \<Rightarrow>
                  let iqr = q3 - q1;
                      lower_bound = q1 - (3 / 2) * iqr;
                      upper_bound = q3 + (3 / 2) * iqr;
                      outliers = filter (\<lambda>d. d < lower_bound \<or> d > upper_bound) durations
                  in Inr \<lparr>sr_stability = stability, sr_reason = reason,
                          sr_coefficient_of_variation = Some cv,
                          sr_outliers =
                            Some \<lparr>ol_count = length outliers, ol_values = outliers,
                                  ol_percentage =
                                    (of_nat (length outliers) / of_nat (length durations)) * 100\<rparr>,
                          sr_stats = Some stats\<rparr>)))"

text \<open>The specification's wording of a percentile, for comparison with
  \<^const>\<open>percentile_value\<close>: the fractional rank \<open>idx = (p/100) * (n-1)\<close> over the values
  sorted ascending; the order statistic at \<open>idx\<close> when \<open>idx\<close> is an integer, otherwise the
  linear interpolation between the floor and the ceiling order statistics, weighted by
  the fractional part.\<close>

definition percentile_spec :: "rat list \<Rightarrow> rat \<Rightarrow> rat" where
  "percentile_spec values p =
     (let s = sort values;
          idx = (p / 100) * (of_nat (length values) - 1)
      in if idx \<in> \<int> then s ! nat \<lfloor>idx\<rfloor>
         else s ! nat \<lfloor>idx\<rfloor> + (s ! nat \<lceil>idx\<rceil> - s ! nat \<lfloor>idx\<rfloor>) * (idx - of_int \<lfloor>idx\<rfloor>))"


section \<open>\<^verbatim>\<open>trace_parser.py\<close>: spans and traces\<close>

text \<open>
  A span is a JSON object read into a Python \<^verbatim>\<open>dict\<close>; a key may be missing, which is
  \<open>None\<close> here (a key holding JSON \<^verbatim>\<open>null\<close> is not distinguished from a missing one;
  the code under study reads \<^verbatim>\<open>parentId\<close> only through \<^verbatim>\<open>span.get('parentId')\<close>).
  Timestamps and durations are Zipkin's integer microseconds.
\<close>

record span =
  sp_id :: "string option"
  sp_parentId :: "string option"
  sp_name :: "string option"
  sp_timestamp :: "int option"
  sp_duration :: "int option"
  sp_traceId :: "string option"
  sp_tags :: "(string \<times> string) list option"

type_synonym trace = "span list"

definition lower_char :: "char \<Rightarrow> char" where
  "lower_char c =
     (if (65::nat) \<le> of_char c \<and> of_char c \<le> (90::nat) then char_of (of_char c + (32::nat))
      else c)"

definition lower :: "string \<Rightarrow> string" where
  "lower s = map lower_char s"

text \<open>\<^verbatim>\<open>s.startswith(pattern)\<close> and \<^verbatim>\<open>pattern in s\<close>.\<close>

definition startswith :: "string \<Rightarrow> string \<Rightarrow> bool" where
  "startswith s pattern = prefix pattern s"

definition contains :: "string \<Rightarrow> string \<Rightarrow> bool" where
  "contains s pattern = sublist pattern s"

text \<open>\<^verbatim>\<open>span.get('name', '')\<close>, \<^verbatim>\<open>span.get('timestamp', 0)\<close>, \<^verbatim>\<open>span.get('duration', 0)\<close>,
  \<^verbatim>\<open>span.get('traceId', '')\<close>.\<close>

definition get_name :: "span \<Rightarrow> string" where
  "get_name spn = (case sp_name spn of None \<Rightarrow> [] | Some n \<Rightarrow> n)"

definition get_timestamp :: "span \<Rightarrow> int" where
  "get_timestamp spn = (case sp_timestamp spn of None \<Rightarrow> 0 | Some t \<Rightarrow> t)"

definition get_duration :: "span \<Rightarrow> int" where
  "get_duration spn = (case sp_duration spn of None \<Rightarrow> 0 | Some d \<Rightarrow> d)"

definition get_traceId :: "span \<Rightarrow> string" where
  "get_traceId spn = (case sp_traceId spn of None \<Rightarrow> [] | Some t \<Rightarrow> t)"

text \<open>\<^verbatim>\<open>trace[0].get('traceId', '')\<close>. Every call site reaches it with a non-empty trace
  (after \<^verbatim>\<open>if not trace\<close>, under \<^verbatim>\<open>trace and ...\<close>, or on a benchmark trace).\<close>

definition first_traceId :: "trace \<Rightarrow> string" where
  "first_traceId trace = (case trace of [] \<Rightarrow> [] | first # _ \<Rightarrow> get_traceId first)"

text \<open>\<^verbatim>\<open>any(span.get('name', '').lower().startswith(pattern) for pattern in patterns)\<close>:
  the name is lower-cased, the patterns are taken as they are.\<close>

definition name_matches :: "string list \<Rightarrow> span \<Rightarrow> bool" where
  "name_matches patterns spn = list_ex (\<lambda>pattern. startswith (lower (get_name spn)) pattern) patterns"



text \<open>A loop that calls \<open>f\<close> on each element in turn and appends the results; the first
  exception leaves the loop.\<close>

fun traverse :: "('a \<Rightarrow> error + 'b) \<Rightarrow> 'a list \<Rightarrow> error + 'b list" where
  "traverse f [] = Inr []"
| "traverse f (x # xs) =
     (case f x of
        Inl e \<Rightarrow> Inl e
      | Inr y \<Rightarrow> (case traverse f xs of Inl e \<Rightarrow> Inl e | Inr ys \<Rightarrow> Inr (y # ys)))"

section \<open>Trace loader\<close>

datatype json =
  JNull
  | JBool bool
  | JNum rat
  | JStr string
  | JArr "json list"
  | JObj "(string \<times> json) list"

text \<open>
  \<^verbatim>\<open>_load_traces_direct\<close>. The file is its text, or \<open>None\<close> when it cannot be opened.
  Python's JSON decoder is library code and a parameter: \<open>json_loads text\<close> is the decoded
  value, or \<open>None\<close> when the decoder raises \<^verbatim>\<open>JSONDecodeError\<close>. A decoded object holds
  each key once. Every exception inside the \<^verbatim>\<open>try\<close> block is re-raised as
  \<^verbatim>\<open>ValueError\<close>: a wrapper that is no object has no \<^verbatim>\<open>.get\<close>, and \<^verbatim>\<open>json.loads\<close> of a
  value that is no string raises \<^verbatim>\<open>TypeError\<close>.
\<close>

definition load_traces_direct :: "(string \<Rightarrow> json option) \<Rightarrow> string option \<Rightarrow> error + json" where
  "load_traces_direct json_loads file =
     (case file of
        None \<Rightarrow> Inl ValueError
      | Some text \<Rightarrow>
          (case json_loads text of
             None \<Rightarrow> Inl ValueError
           | Some (JObj wrapper_data) \<Rightarrow>
               (case (case map_of wrapper_data ''rawData'' of None \<Rightarrow> JStr ''[]'' | Some v \<Rightarrow> v) of
                  JStr raw \<Rightarrow>
                    (case json_loads raw of None \<Rightarrow> Inl ValueError | Some traces \<Rightarrow> Inr traces)
                | _ \<Rightarrow> Inl ValueError)
           | Some _ \<Rightarrow> Inl ValueError))"

text \<open>The decoder on the two texts the examples below load, as Python decodes them:
  \<^verbatim>\<open>json.loads('{}') == {}\<close> and \<^verbatim>\<open>json.loads('[]') == []\<close>. It stands for no other text.\<close>

definition json_loads_literals :: "string \<Rightarrow> json option" where
  "json_loads_literals text =
     (if text = ''{}'' then Some (JObj []) else if text = ''[]'' then Some (JArr []) else None)"

text \<open>\<^verbatim>\<open>_is_benchmark_trace\<close>.\<close>

definition is_benchmark_trace :: "trace \<Rightarrow> bool" where
  "is_benchmark_trace trace =
     list_ex (\<lambda>spn. case sp_name spn of
                None \<Rightarrow> False
              | Some n \<Rightarrow> contains (lower n) ''http'' \<and> contains (lower n) ''benchmark/analyze'')
       trace"

text \<open>
  The sort key \<^verbatim>\<open>min(span.get('timestamp', float('inf')) for span in trace)\<close>. A key is a
  pair ordered lexicographically: \<open>(False, t)\<close> is the timestamp \<open>t\<close> and \<open>(True, 0)\<close> is
  \<^verbatim>\<open>float('inf')\<close>, above every timestamp. The key is taken of benchmark traces only,
  which hold at least one span (\<^verbatim>\<open>min\<close> of an empty trace would raise).
\<close>

definition timestamp_key :: "span \<Rightarrow> bool \<times> int" where
  "timestamp_key spn = (case sp_timestamp spn of None \<Rightarrow> (True, 0) | Some t \<Rightarrow> (False, t))"

definition min_timestamp :: "trace \<Rightarrow> bool \<times> int" where
  "min_timestamp trace =
     (case trace of [] \<Rightarrow> (True, 0) | first # rest \<Rightarrow> fold min (map timestamp_key rest) (timestamp_key first))"

text \<open>What \<^verbatim>\<open>_exclude_warmup_iterations\<close> prints.\<close>

datatype notice =
  OnlyIterationsFound nat int
  | ExcludedWarmupTraces nat int

text \<open>\<^verbatim>\<open>_exclude_warmup_iterations\<close>: from \<^verbatim>\<open>self.warmup_iterations\<close> and \<^verbatim>\<open>self.traces\<close> to
  the new \<^verbatim>\<open>self.traces\<close> and the printed lines.\<close>

definition exclude_warmup_iterations :: "int \<Rightarrow> trace list \<Rightarrow> trace list \<times> notice list" where
  "exclude_warmup_iterations warmup_iterations traces =
     (if warmup_iterations \<le> 0 then (traces, [])
      else
        let benchmark_traces = filter is_benchmark_trace traces in
        if int (length benchmark_traces) \<le> warmup_iterations then
          (traces, [OnlyIterationsFound (length benchmark_traces) warmup_iterations])
        else
          let sorted_traces = sort_key min_timestamp benchmark_traces;
              warmup_trace_ids = set (map first_traceId (take (nat warmup_iterations) sorted_traces));
              kept = filter (\<lambda>trace. \<not> (trace \<noteq> [] \<and> first_traceId trace \<in> warmup_trace_ids)) traces
          in (kept, [ExcludedWarmupTraces (length traces - length kept) warmup_iterations]))"

text \<open>
  The specification's wording of warm-up exclusion, for comparison with
  \<^const>\<open>exclude_warmup_iterations\<close>: the qualifying traces sorted by minimum span start
  timestamp, the first \<open>warmupCount\<close> of them, their trace identifiers; the traces sharing
  one of these identifiers are removed. The exclusion is skipped only when \<open>warmupCount\<close>
  exceeds the number of qualifying traces, and nothing is filtered for \<open>warmupCount = 0\<close>.
\<close>

definition warmup_ids_spec :: "nat \<Rightarrow> trace list \<Rightarrow> string set" where
  "warmup_ids_spec warmupCount traces =
     first_traceId ` set (take warmupCount (sort_key min_timestamp (filter is_benchmark_trace traces)))"

definition warmup_exclusion_spec :: "nat \<Rightarrow> trace list \<Rightarrow> trace list" where
  "warmup_exclusion_spec warmupCount traces =
     (if warmupCount = 0 \<or> warmupCount > length (filter is_benchmark_trace traces) then traces
      else filter (\<lambda>trace. \<not> (trace \<noteq> [] \<and> first_traceId trace \<in> warmup_ids_spec warmupCount traces)) traces)"

section \<open>Interval-union critical I/O\<close>

record interval =
  iv_start :: rat
  iv_end :: rat
  iv_duration :: rat
  iv_span_id :: string
  iv_span_name :: string
  iv_merged_spans :: "string list option"

text \<open>The body of the loop \<^verbatim>\<open>for span in io_spans\<close>: \<^verbatim>\<open>span['id']\<close> raises \<^verbatim>\<open>KeyError\<close>
  when the span has no \<^verbatim>\<open>id\<close>.\<close>

definition span_interval :: "span \<Rightarrow> error + interval" where
  "span_interval spn =
     (let start_time = of_int (get_timestamp spn) / 1000;
          duration = of_int (get_duration spn) / 1000;
          end_time = start_time + duration
      in case sp_id spn of
           None \<Rightarrow> Inl (KeyError ''id'')
         | Some i \<Rightarrow>
             Inr \<lparr>iv_start = start_time, iv_end = end_time, iv_duration = duration,
                  iv_span_id = i,
                  iv_span_name = (case sp_name spn of None \<Rightarrow> ''N/A'' | Some n \<Rightarrow> n),
                  iv_merged_spans = None\<rparr>)"

text \<open>The loop of \<^verbatim>\<open>_merge_intervals\<close>, with \<^verbatim>\<open>current_interval\<close>, the intervals still to
  come and \<^verbatim>\<open>merged\<close>.\<close>

fun merge_loop :: "interval \<Rightarrow> interval list \<Rightarrow> interval list \<Rightarrow> interval list" where
  "merge_loop current_interval [] merged = merged @ [current_interval]"
| "merge_loop current_interval (next_interval # rest) merged =
     (if iv_start next_interval \<le> iv_end current_interval then
        let new_end = max (iv_end current_interval) (iv_end next_interval);
            merged_spans =
              (case iv_merged_spans current_interval of
                 None \<Rightarrow> [iv_span_id current_interval]
               | Some ms \<Rightarrow> ms)
        in merge_loop
             (current_interval\<lparr>iv_end := new_end,
                iv_duration := new_end - iv_start current_interval,
                iv_merged_spans := Some (merged_spans @ [iv_span_id next_interval])\<rparr>)
             rest merged
      else merge_loop next_interval rest (merged @ [current_interval]))"

definition merge_intervals :: "interval list \<Rightarrow> interval list" where
  "merge_intervals intervals =
     (case intervals of [] \<Rightarrow> [] | first # rest \<Rightarrow> merge_loop first rest [])"

record io_result =
  r_trace_id :: string
  r_critical_io_ms :: rat
  r_spans_count :: nat
  r_execution_pattern :: string

text \<open>The body of the loop \<^verbatim>\<open>for trace in self.traces\<close> of
  \<^verbatim>\<open>_get_critical_io_union_intervals\<close>.\<close>

definition union_intervals_trace :: "string list \<Rightarrow> trace \<Rightarrow> error + io_result" where
  "union_intervals_trace patterns trace =
     (if trace = [] then
        Inr \<lparr>r_trace_id = [], r_critical_io_ms = 0, r_spans_count = 0,
             r_execution_pattern = ''no_trace''\<rparr>
      else
        let io_spans = filter (name_matches patterns) trace in
        if io_spans = [] then
          Inr \<lparr>r_trace_id = first_traceId trace, r_critical_io_ms = 0, r_spans_count = 0,
               r_execution_pattern = ''no_io_spans''\<rparr>
        else
          (case traverse span_interval io_spans of
             Inl e \<Rightarrow> Inl e
           | Inr intervals \<Rightarrow>
               let sorted_intervals = sort_key iv_start intervals;
                   merged_intervals = merge_intervals sorted_intervals;
                   total_critical_io = sum_list (map iv_duration merged_intervals)
               in Inr \<lparr>r_trace_id = first_traceId trace, r_critical_io_ms = total_critical_io,
                       r_spans_count = length io_spans,
                       r_execution_pattern = ''union_intervals''\<rparr>))"


text \<open>
  The specification's wording of critical I/O, for comparison: the total length of the
  union of the intervals \<open>[start, start + duration)\<close> of the spans whose lower-cased name
  starts with one of the patterns. Timestamps are whole microseconds, so the length of
  the union in microseconds is the number of microsecond ticks it holds; the result is in
  milliseconds.
\<close>

definition span_ticks :: "span \<Rightarrow> int set" where
  "span_ticks spn = {get_timestamp spn ..< get_timestamp spn + get_duration spn}"

definition union_length_spec :: "string list \<Rightarrow> trace \<Rightarrow> rat" where
  "union_length_spec patterns trace =
     of_nat (card (\<Union>spn \<in> {s \<in> set trace. \<exists>pattern \<in> set patterns. prefix pattern (lower (get_name s))}.
                     span_ticks spn)) / 1000"


section \<open>Recursive hierarchical critical-path aggregation\<close>

text \<open>The dictionaries \<^verbatim>\<open>{'timestamp': ..., 'duration_ms': ...}\<close> handed to
  \<^verbatim>\<open>_check_concurrency\<close>, in milliseconds.\<close>

record time_dict =
  td_timestamp :: rat
  td_duration_ms :: rat

definition time_dict_of :: "span \<Rightarrow> time_dict" where
  "time_dict_of spn =
     \<lparr>td_timestamp = of_int (get_timestamp spn) / 1000,
      td_duration_ms = of_int (get_duration spn) / 1000\<rparr>"

text \<open>The loop of \<^verbatim>\<open>_check_concurrency\<close> over the sorted list: \<^verbatim>\<open>True\<close> at the first
  neighbour that starts strictly before its predecessor ends.\<close>

fun adjacent_overlap :: "time_dict list \<Rightarrow> bool" where
  "adjacent_overlap (current # following # rest) =
     (if td_timestamp following < td_timestamp current + td_duration_ms current then True
      else adjacent_overlap (following # rest))"
| "adjacent_overlap _ = False"

definition check_concurrency :: "time_dict list \<Rightarrow> bool" where
  "check_concurrency spans =
     (if length spans \<le> 1 then False
      else adjacent_overlap (sort_key td_timestamp spans))"

text \<open>\<^verbatim>\<open>span_lookup = {span['id']: span for span in trace}\<close>: a span without \<^verbatim>\<open>id\<close> raises
  \<^verbatim>\<open>KeyError\<close>; a repeated \<^verbatim>\<open>id\<close> keeps the position of its first span and the value
  of its last.\<close>

fun build_span_lookup :: "(string \<times> span) list \<Rightarrow> trace \<Rightarrow> error + (string \<times> span) list" where
  "build_span_lookup span_lookup [] = Inr span_lookup"
| "build_span_lookup span_lookup (spn # rest) =
     (case sp_id spn of
        None \<Rightarrow> Inl (KeyError ''id'')
      | Some i \<Rightarrow> build_span_lookup (AList.update i spn span_lookup) rest)"

text \<open>\<^verbatim>\<open>[s for s in span_lookup.values() if s.get('parentId') == span_id]\<close>.\<close>

definition children_of :: "(string \<times> span) list \<Rightarrow> string \<Rightarrow> span list" where
  "children_of span_lookup span_id =
     filter (\<lambda>s. sp_parentId s = Some span_id) (map snd span_lookup)"

text \<open>
  A loop of recursive calls, each of which may raise or may not return: the results in
  order, the first exception, or \<open>None\<close> as soon as one call does not return.
\<close>

fun collect :: "('a \<Rightarrow> (error + 'b) option) \<Rightarrow> 'a list \<Rightarrow> (error + 'b list) option" where
  "collect f [] = Some (Inr [])"
| "collect f (x # xs) =
     (case f x of
        None \<Rightarrow> None
      | Some (Inl e) \<Rightarrow> Some (Inl e)
      | Some (Inr y) \<Rightarrow>
          (case collect f xs of
             None \<Rightarrow> None
           | Some (Inl e) \<Rightarrow> Some (Inl e)
           | Some (Inr ys) \<Rightarrow> Some (Inr (y # ys))))"

text \<open>The part of \<^verbatim>\<open>_aggregate_span_recursive\<close> after the recursive calls: from the span,
  its children and their values to the span's value.\<close>

definition aggregate_values :: "string list \<Rightarrow> span \<Rightarrow> span list \<Rightarrow> rat list \<Rightarrow> rat" where
  "aggregate_values critical_patterns spn children child_values =
     (let span_value =
            (if name_matches critical_patterns spn then of_int (get_duration spn) / 1000 else 0);
          all_values = span_value # child_values
      in if length all_values = 1 then span_value
         else
           let critical_children =
                 map fst (filter (\<lambda>cv. snd cv > 0) (zip children child_values))
           in if length critical_children \<le> 1 then sum_list all_values
              else
                let child_span_dicts = map time_dict_of critical_children;
                    critical_values =
                      map snd (filter (\<lambda>cv. snd cv > 0) (zip children child_values))
                in if check_concurrency child_span_dicts then
                     span_value + (if critical_values = [] then 0 else py_max critical_values)
                   else span_value + sum_list critical_values)"

text \<open>
  \<^verbatim>\<open>_aggregate_span_recursive\<close>. The recursion follows the \<^verbatim>\<open>parentId\<close> links of the
  input and need not end, so the model carries the depth still allowed: \<open>None\<close> says that
  the call does not return within that depth (on a cyclic input no depth suffices; Python
  then ends in \<^verbatim>\<open>RecursionError\<close>).
\<close>

primrec aggregate_span_recursive ::
  "nat \<Rightarrow> (string \<times> span) list \<Rightarrow> string list \<Rightarrow> span \<Rightarrow> (error + rat) option" where
  "aggregate_span_recursive 0 span_lookup critical_patterns spn = None"
| "aggregate_span_recursive (Suc depth) span_lookup critical_patterns spn =
     (case sp_id spn of
        None \<Rightarrow> Some (Inl (KeyError ''id''))
      | Some span_id \<Rightarrow>
          (let children = children_of span_lookup span_id in
           case collect (aggregate_span_recursive depth span_lookup critical_patterns) children of
             None \<Rightarrow> None
           | Some (Inl e) \<Rightarrow> Some (Inl e)
           | Some (Inr child_values) \<Rightarrow>
               Some (Inr (aggregate_values critical_patterns spn children child_values))))"

text \<open>\<^verbatim>\<open>_calculate_final_critical_io_recursive\<close>.\<close>

definition calculate_final_critical_io_recursive ::
  "nat \<Rightarrow> trace \<Rightarrow> string list \<Rightarrow> (error + rat) option" where
  "calculate_final_critical_io_recursive depth trace critical_patterns =
     (case build_span_lookup [] trace of
        Inl e \<Rightarrow> Some (Inl e)
      | Inr span_lookup \<Rightarrow>
          let root_spans = filter (\<lambda>s. sp_parentId s = None) trace in
          if root_spans = [] then Some (Inr 0)
          else
            (case collect (aggregate_span_recursive depth span_lookup critical_patterns) root_spans of
               None \<Rightarrow> None
             | Some (Inl e) \<Rightarrow> Some (Inl e)
             | Some (Inr root_values) \<Rightarrow>
                 Some (Inr
                   (if length root_values = 1 then root_values ! 0
                    else if check_concurrency (map time_dict_of root_spans) then py_max root_values
                    else sum_list root_values))))"

text \<open>The body of the loop \<^verbatim>\<open>for trace in self.traces\<close> of \<^verbatim>\<open>_get_critical_io_by_pattern\<close>.\<close>

definition critical_io_by_pattern_trace ::
  "nat \<Rightarrow> string list \<Rightarrow> string \<Rightarrow> trace \<Rightarrow> (error + io_result) option" where
  "critical_io_by_pattern_trace depth patterns pattern_name trace =
     (if trace = [] then
        Some (Inr \<lparr>r_trace_id = [], r_critical_io_ms = 0, r_spans_count = 0,
                   r_execution_pattern = ''no_trace''\<rparr>)
      else
        let critical_spans = filter (name_matches patterns) trace in
        if critical_spans = [] then
          Some (Inr \<lparr>r_trace_id = first_traceId trace, r_critical_io_ms = 0, r_spans_count = 0,
                     r_execution_pattern =
                       (if length patterns = 1 then ''no_'' @ pattern_name @ ''_spans''
                        else ''no_critical_spans'')\<rparr>)
        else
          (case calculate_final_critical_io_recursive depth trace patterns of
             None \<Rightarrow> None
           | Some (Inl e) \<Rightarrow> Some (Inl e)
           | Some (Inr critical_io) \<Rightarrow>
               Some (Inr \<lparr>r_trace_id = first_traceId trace, r_critical_io_ms = critical_io,
                          r_spans_count = length critical_spans,
                          r_execution_pattern = ''recursive_hierarchical''\<rparr>)))"


section \<open>Example spans and traces\<close>

text \<open>A span with every field but \<^verbatim>\<open>tags\<close>, in the trace \<^verbatim>\<open>t1\<close>.\<close>

definition example_span :: "string \<Rightarrow> string option \<Rightarrow> string \<Rightarrow> int \<Rightarrow> int \<Rightarrow> span" where
  "example_span i parent n ts dur =
     \<lparr>sp_id = Some i, sp_parentId = parent, sp_name = Some n, sp_timestamp = Some ts,
      sp_duration = Some dur, sp_traceId = Some ''t1'', sp_tags = None\<rparr>"

text \<open>A trace of one span, the benchmark HTTP request, with the given trace identifier
  and start.\<close>

definition example_benchmark_trace :: "string \<Rightarrow> int \<Rightarrow> trace" where
  "example_benchmark_trace tid ts =
     [\<lparr>sp_id = Some ''r'', sp_parentId = None, sp_name = Some ''http post /benchmark/analyze'',
       sp_timestamp = Some ts, sp_duration = Some 500000, sp_traceId = Some tid, sp_tags = None\<rparr>]"

text \<open>A trace of one span that is no benchmark request.\<close>

definition example_other_trace :: "string \<Rightarrow> int \<Rightarrow> trace" where
  "example_other_trace tid ts =
     [\<lparr>sp_id = Some ''r'', sp_parentId = None, sp_name = Some ''http get /health'',
       sp_timestamp = Some ts, sp_duration = Some 1000, sp_traceId = Some tid, sp_tags = None\<rparr>]"

text \<open>\<open>non_overlapping spans\<close>: the intervals of the spans are pairwise disjoint.\<close>

fun non_overlapping :: "span list \<Rightarrow> bool" where
  "non_overlapping [] = True"
| "non_overlapping (s # ss) = ((\<forall>t \<in> set ss. span_ticks s \<inter> span_ticks t = {}) \<and> non_overlapping ss)"

text \<open>
  For the proofs: the bounds of an interval in whole microseconds, the ticks between
  them, and the invariant of the merge loop (the bounds of an interval are whole
  microseconds in order, and its duration is its length).
\<close>

definition iv_lo :: "interval \<Rightarrow> int" where
  "iv_lo iv = \<lfloor>iv_start iv * 1000\<rfloor>"

definition iv_hi :: "interval \<Rightarrow> int" where
  "iv_hi iv = \<lfloor>iv_end iv * 1000\<rfloor>"

definition iv_ticks :: "interval \<Rightarrow> int set" where
  "iv_ticks iv = {iv_lo iv ..< iv_hi iv}"

definition iv_wf :: "interval \<Rightarrow> bool" where
  "iv_wf iv \<longleftrightarrow>
     iv_start iv = of_int (iv_lo iv) / 1000 \<and> iv_end iv = of_int (iv_hi iv) / 1000 \<and>
     iv_lo iv \<le> iv_hi iv \<and> iv_duration iv = iv_end iv - iv_start iv"




section \<open>The recursive aggregation with its call log\<close>







section \<open>The parser object\<close>

text \<open>
  The attributes of a \<^verbatim>\<open>TraceParser\<close>. A method is a function from the object before the
  call to its result and the object after the call. \<^verbatim>\<open>_get_critical_io_by_pattern\<close> reads
  \<^verbatim>\<open>self.traces\<close> and assigns to no attribute, list or span: every list and dictionary it
  fills (\<^verbatim>\<open>critical_io_values\<close>, \<^verbatim>\<open>span_lookup\<close>, \<^verbatim>\<open>root_values\<close>, \<^verbatim>\<open>child_values\<close>,
  the dictionaries for \<^verbatim>\<open>_check_concurrency\<close>, which sorts with \<^verbatim>\<open>sorted\<close> into a new
  list) is created inside the call.
\<close>

record parser =
  p_trace_file_path :: string
  p_warmup_iterations :: int
  p_traces :: "trace list"


section \<open>Properties of the statistics engine\<close>

lemma fold_min_le: "fold min xs (x::rat) \<le> x"
proof (induction xs arbitrary: x)
  case Nil then show ?case by simp
next
  case (Cons a xs)
  have "fold min xs (min a x) \<le> min a x" by (rule Cons.IH)
  also have "min a x \<le> x" by simp
  finally show ?case by simp
qed

lemma fold_min_le_mem: "d \<in> set xs \<Longrightarrow> fold min xs (x::rat) \<le> d"
proof (induction xs arbitrary: x)
  case Nil then show ?case by simp
next
  case (Cons a xs)
  show ?case
  proof (cases "d = a")
    case True
    have "fold min xs (min a x) \<le> min a x" by (rule fold_min_le)
    then show ?thesis using True by simp
  next
    case False
    then have "d \<in> set xs" using Cons.prems by simp
    then show ?thesis using Cons.IH by simp
  qed
qed

lemma fold_max_ge: "(x::rat) \<le> fold max xs x"
proof (induction xs arbitrary: x)
  case Nil then show ?case by simp
next
  case (Cons a xs)
  have "x \<le> max a x" by simp
  also have "max a x \<le> fold max xs (max a x)" by (rule Cons.IH)
  finally show ?case by simp
qed

lemma fold_max_ge_mem: "d \<in> set xs \<Longrightarrow> d \<le> fold max xs (x::rat)"
proof (induction xs arbitrary: x)
  case Nil then show ?case by simp
next
  case (Cons a xs)
  show ?case
  proof (cases "d = a")
    case True
    have "max a x \<le> fold max xs (max a x)" by (rule fold_max_ge)
    then show ?thesis using True by simp
  next
    case False
    then have "d \<in> set xs" using Cons.prems by simp
    then show ?thesis using Cons.IH by simp
  qed
qed

lemma py_min_le: "d \<in> set xs \<Longrightarrow> py_min xs \<le> d"
  by (cases xs) (auto simp: fold_min_le fold_min_le_mem)

lemma py_max_ge: "d \<in> set xs \<Longrightarrow> d \<le> py_max xs"
  by (cases xs) (auto simp: fold_max_ge fold_max_ge_mem)

lemma fence_contains:
  assumes "d \<in> set xs"
  shows "\<not> (d < py_min xs - (3 / 2) * (py_max xs - py_min xs) \<or>
            d > py_max xs + (3 / 2) * (py_max xs - py_min xs))"
proof -
  have a: "py_min xs \<le> d" and b: "d \<le> py_max xs"
    using assms by (simp_all add: py_min_le py_max_ge)
  have w: "0 \<le> (3 / 2) * (py_max xs - py_min xs)" using a b by simp
  have "py_min xs - (3 / 2) * (py_max xs - py_min xs) \<le> d" using a w by linarith
  moreover have "d \<le> py_max xs + (3 / 2) * (py_max xs - py_min xs)" using b w by linarith
  ultimately show ?thesis by (simp only: not_less de_Morgan_disj)
qed

lemma filter_fence_empty:
  "filter (\<lambda>d. d < py_min xs - (3 / 2) * (py_max xs - py_min xs) \<or>
            d > py_max xs + (3 / 2) * (py_max xs - py_min xs)) xs = []"
  using fence_contains by (simp add: filter_empty_conv)

text \<open>
  Claim C10. For every non-empty duration list with fewer than 4 samples, the stability
  analysis reports no outliers (count 0, empty value list, percentage 0), whatever the
  statistics library returns: the quartile bounds are the minimum and the maximum, and
  every sample lies inside the fence
  \<open>[min - 1.5 * (max - min), max + 1.5 * (max - min)]\<close>.
\<close>

theorem small_sample_no_outliers:
  assumes "durations \<noteq> []" and "length durations < 4"
  shows "map_sum id sr_outliers (analyze_performance_stability lib durations) =
           Inr (Some \<lparr>ol_count = 0, ol_values = [], ol_percentage = 0\<rparr>)
         \<and> (\<forall>d \<in> set durations.
              py_min durations - (3 / 2) * (py_max durations - py_min durations) \<le> d \<and>
              d \<le> py_max durations + (3 / 2) * (py_max durations - py_min durations))"
proof
  show "map_sum id sr_outliers (analyze_performance_stability lib durations) =
           Inr (Some \<lparr>ol_count = 0, ol_values = [], ol_percentage = 0\<rparr>)"
    using assms filter_fence_empty[of durations]
    by (simp add: analyze_performance_stability_def Let_def del: mult_numeral_left_semiring_numeral)
  show "\<forall>d \<in> set durations.
              py_min durations - (3 / 2) * (py_max durations - py_min durations) \<le> d \<and>
              d \<le> py_max durations + (3 / 2) * (py_max durations - py_min durations)"
    using fence_contains[of _ durations] by (auto simp: not_less)
qed


lemma is_integer_iff: "is_integer x \<longleftrightarrow> x \<in> \<int>"
  unfolding is_integer_def by (metis Ints_of_int of_int_floor)

lemma percentile_value_spec:
  assumes ne: "values \<noteq> []" and p0: "0 \<le> p" and p100: "p \<le> 100"
  shows "percentile_value (sort values) p = Inr (percentile_spec values p)"
proof -
  define n where "n = length values"
  define idx where "idx = (p / 100) * (of_nat n - 1)"
  have npos: "0 < n" using ne by (simp add: n_def)
  then have n1: "(0::rat) \<le> of_nat n - 1" by (simp add: Suc_leI)
  have idx0: "0 \<le> idx" unfolding idx_def using p0 n1 by simp
  have "(p / 100) * (of_nat n - 1) \<le> 1 * (of_nat n - 1)"
    using p100 n1 by (intro mult_right_mono) simp_all
  then have idxn: "idx \<le> of_nat n - 1" by (simp add: idx_def)
  have fl0: "0 \<le> \<lfloor>idx\<rfloor>" using idx0 by simp
  have idxn': "idx \<le> of_int (int n - 1)" using idxn by simp
  then have fln: "\<lfloor>idx\<rfloor> \<le> int n - 1" by (metis le_floor_iff floor_mono floor_of_int)
  have pyint: "py_int idx = \<lfloor>idx\<rfloor>" using idx0 by (simp add: py_int_def)
  have lo: "py_index (sort values) \<lfloor>idx\<rfloor> = Inr (sort values ! nat \<lfloor>idx\<rfloor>)"
    using fl0 fln by (simp add: py_index_def n_def)
  have code: "percentile_value (sort values) p =
     (if is_integer idx then py_index (sort values) (py_int idx)
      else
        (case py_index (sort values) (py_int idx) of
           Inl e \<Rightarrow> Inl e
         | Inr lw \<Rightarrow>
             (case py_index (sort values) (py_int idx + 1) of
                Inl e \<Rightarrow> Inl e
              | Inr up \<Rightarrow> Inr (lw + (up - lw) * (idx - of_int (py_int idx))))))"
    by (simp only: percentile_value_def Let_def idx_def n_def length_sort)
  have spec: "percentile_spec values p =
     (if idx \<in> \<int> then sort values ! nat \<lfloor>idx\<rfloor>
         else sort values ! nat \<lfloor>idx\<rfloor> +
           (sort values ! nat \<lceil>idx\<rceil> - sort values ! nat \<lfloor>idx\<rfloor>) * (idx - of_int \<lfloor>idx\<rfloor>))"
    by (simp only: percentile_spec_def Let_def idx_def n_def)
  show ?thesis
  proof (cases "idx \<in> \<int>")
    case True
    then show ?thesis
      using lo pyint by (simp add: code spec is_integer_iff)
  next
    case False
    have "idx \<noteq> of_int \<lfloor>idx\<rfloor>" using False by (metis Ints_of_int)
    then have ce: "\<lceil>idx\<rceil> = \<lfloor>idx\<rfloor> + 1" by (simp add: ceiling_altdef)
    have "\<lceil>idx\<rceil> \<le> int n - 1" using idxn' by (rule ceiling_le)
    moreover have "\<not> \<lfloor>idx\<rfloor> + 1 < 0" using fl0 by linarith
    ultimately have hi: "py_index (sort values) (\<lfloor>idx\<rfloor> + 1) = Inr (sort values ! nat \<lceil>idx\<rceil>)"
      using ce by (simp add: py_index_def n_def)
    show ?thesis
      using False lo hi pyint by (simp add: code spec is_integer_iff)
  qed
qed

lemma percentiles_loop_fold:
  assumes "\<forall>p \<in> set ps. percentile_value s p = Inr (f p)"
  shows "percentiles_loop s ps acc =
           Inr (fold (\<lambda>kv d. AList.update (fst kv) (snd kv) d) (map (\<lambda>p. (p, f p)) ps) acc)"
  using assms by (induction ps arbitrary: acc) simp_all

text \<open>
  Claim C7. For a non-empty value list and requested percentiles in \<open>[0, 100]\<close>,
  \<^const>\<open>calculate_percentiles\<close> stores for each \<open>p\<close> the value the specification
  describes (\<^const>\<open>percentile_spec\<close>: the order statistic at the rank
  \<open>(p/100) * (n-1)\<close> of the sorted values when the rank is an integer, the linear
  interpolation between its floor and ceiling order statistics otherwise); for the empty
  list every requested percentile is 0. The witness is the specification's example
  \<open>percentiles([10,20,30,40], [50]) = 25\<close>.
\<close>

theorem percentiles_interpolate:
  "(values \<noteq> [] \<and> (\<forall>p \<in> set ps. 0 \<le> p \<and> p \<le> 100) \<longrightarrow>
      calculate_percentiles values (Some ps) =
        Inr (dict_of (map (\<lambda>p. (p, percentile_spec values p)) ps)))
   \<and> calculate_percentiles [] (Some ps) = Inr (dict_of (map (\<lambda>p. (p, 0)) ps))
   \<and> calculate_percentiles [] None = Inr [(50, 0), (90, 0), (95, 0), (99, 0)]"
proof (intro conjI impI)
  assume h: "values \<noteq> [] \<and> (\<forall>p \<in> set ps. 0 \<le> p \<and> p \<le> 100)"
  then have "\<forall>p \<in> set ps. percentile_value (sort values) p = Inr (percentile_spec values p)"
    by (simp add: percentile_value_spec)
  then show "calculate_percentiles values (Some ps) =
        Inr (dict_of (map (\<lambda>p. (p, percentile_spec values p)) ps))"
    using h by (simp add: calculate_percentiles_def dict_of_def percentiles_loop_fold)
next
  show "calculate_percentiles [] (Some ps) = Inr (dict_of (map (\<lambda>p. (p, 0)) ps))"
    by (simp add: calculate_percentiles_def)
next
  show "calculate_percentiles [] None = Inr [(50, 0), (90, 0), (95, 0), (99, 0)]"
    by (simp add: calculate_percentiles_def dict_of_def)
qed

theorem percentiles_interpolate_witness:
  "calculate_percentiles [10, 20, 30, 40] (Some [50]) = Inr [(50, 25)]"
proof -
  have i: "(50 / 100) * (of_nat (length [10, 20, 30, 40 :: rat]) - 1) = (3 / 2 :: rat)" by simp
  have "\<not> is_integer (3 / 2)" by code_simp
  then have ni: "(3 / 2 :: rat) \<notin> \<int>" using is_integer_iff by blast
  have f: "\<lfloor>3 / 2 :: rat\<rfloor> = 1" by (rule floor_unique) simp_all
  have c: "\<lceil>3 / 2 :: rat\<rceil> = 2" by (rule ceiling_unique) simp_all
  have srt: "sort [10, 20, 30, 40 :: rat] = [10, 20, 30, 40]" by simp
  have s: "percentile_spec [10, 20, 30, 40] 50 = 25"
    by (simp only: percentile_spec_def Let_def i ni f c srt if_False) simp
  have "[10, 20, 30, 40] \<noteq> ([]::rat list) \<and> (\<forall>p \<in> set [50::rat]. 0 \<le> p \<and> p \<le> 100)" by simp
  with percentiles_interpolate[of "[10, 20, 30, 40]" "[50]"]
  have "calculate_percentiles [10, 20, 30, 40] (Some [50]) =
        Inr (dict_of (map (\<lambda>p. (p, percentile_spec [10, 20, 30, 40] p)) [50]))" by blast
  then show ?thesis by (simp add: s dict_of_def)
qed

theorem small_sample_no_outliers_witness:
  "\<forall>lib. map_sum id sr_outliers (analyze_performance_stability lib [1, 2, 100]) =
           Inr (Some \<lparr>ol_count = 0, ol_values = [], ol_percentage = 0\<rparr>)"
proof
  fix lib
  have "[1, 2, 100] \<noteq> ([]::rat list)" and "length [1, 2, 100 :: rat] < 4" by simp_all
  from small_sample_no_outliers[OF this, of lib]
  show "map_sum id sr_outliers (analyze_performance_stability lib [1, 2, 100]) =
           Inr (Some \<lparr>ol_count = 0, ol_values = [], ol_percentage = 0\<rparr>)" by blast
qed

section \<open>Properties of the trace loader\<close>

lemma load_Some_obj:
  assumes "json_loads ''[]'' = Some (JArr [])" "json_loads doc = Some (JObj kvs)"
  shows "load_traces_direct json_loads (Some doc) =
           (case map_of kvs ''rawData'' of
              None \<Rightarrow> Inr (JArr [])
            | Some (JStr raw) \<Rightarrow> (case json_loads raw of None \<Rightarrow> Inl ValueError | Some t \<Rightarrow> Inr t)
            | Some _ \<Rightarrow> Inl ValueError)"
  using assms by (simp add: load_traces_direct_def split: option.splits json.splits)

lemma load_Some_nonobj:
  assumes "json_loads doc = Some w" "\<forall>kvs. w \<noteq> JObj kvs"
  shows "load_traces_direct json_loads (Some doc) = Inl ValueError"
  using assms by (cases w) (simp_all add: load_traces_direct_def)

lemma load_Some_undecodable:
  assumes "json_loads doc = None"
  shows "load_traces_direct json_loads (Some doc) = Inl ValueError"
  using assms by (simp add: load_traces_direct_def)

lemma load_None: "load_traces_direct json_loads None = Inl ValueError"
  by (simp add: load_traces_direct_def)

lemma load_result_cases:
  "load_traces_direct json_loads src = Inl ValueError \<or> (\<exists>t. load_traces_direct json_loads src = Inr t)"
  by (simp add: load_traces_direct_def split: option.splits json.splits)

text \<open>
  Claim C6, as the code has it. Given that the decoder reads the text \<^verbatim>\<open>[]\<close> as the empty
  array, loading raises \<^verbatim>\<open>ValueError\<close> exactly when the file cannot be opened, its text
  is not valid JSON, the decoded wrapper is not an object, or the wrapper holds a
  \<^verbatim>\<open>rawData\<close> entry that is not a string of valid JSON. A wrapper object without
  \<^verbatim>\<open>rawData\<close> loads as the empty trace list.
\<close>

theorem load_without_payload_returns_empty:
  assumes dflt: "json_loads ''[]'' = Some (JArr [])"
  shows "(load_traces_direct json_loads src = Inl ValueError \<longleftrightarrow>
            (src = None \<or>
             (\<exists>doc. src = Some doc \<and>
                (json_loads doc = None \<or>
                 (\<exists>w. json_loads doc = Some w \<and>
                    ((\<forall>kvs. w \<noteq> JObj kvs) \<or>
                     (\<exists>kvs v. w = JObj kvs \<and> map_of kvs ''rawData'' = Some v \<and>
                        (\<forall>raw. v = JStr raw \<longrightarrow> json_loads raw = None))))))))
         \<and> (\<forall>doc kvs. src = Some doc \<and> json_loads doc = Some (JObj kvs) \<and>
                map_of kvs ''rawData'' = None \<longrightarrow>
              load_traces_direct json_loads src = Inr (JArr []))"
proof (intro conjI allI impI)
  show "load_traces_direct json_loads src = Inl ValueError \<longleftrightarrow>
            (src = None \<or>
             (\<exists>doc. src = Some doc \<and>
                (json_loads doc = None \<or>
                 (\<exists>w. json_loads doc = Some w \<and>
                    ((\<forall>kvs. w \<noteq> JObj kvs) \<or>
                     (\<exists>kvs v. w = JObj kvs \<and> map_of kvs ''rawData'' = Some v \<and>
                        (\<forall>raw. v = JStr raw \<longrightarrow> json_loads raw = None)))))))"
  proof (cases src)
    case None
    then show ?thesis by (simp add: load_None)
  next
    case (Some doc)
    show ?thesis
    proof (cases "json_loads doc")
      case None
      then show ?thesis using Some by (simp add: load_Some_undecodable)
    next
      case w: (Some w)
      show ?thesis
      proof (cases "\<exists>kvs. w = JObj kvs")
        case False
        then show ?thesis using Some w by (simp add: load_Some_nonobj)
      next
        case True
        then obtain kvs where f: "w = JObj kvs" by blast
        show ?thesis
        proof (cases "map_of kvs ''rawData''")
          case None
          then show ?thesis using Some w f load_Some_obj[of json_loads doc kvs, OF dflt] by simp
        next
          case v: (Some v)
          show ?thesis
            using Some w f v load_Some_obj[of json_loads doc kvs, OF dflt]
            by (cases v) (auto split: option.splits)
        qed
      qed
    qed
  qed
next
  fix doc kvs
  assume "src = Some doc \<and> json_loads doc = Some (JObj kvs) \<and> map_of kvs ''rawData'' = None"
  then show "load_traces_direct json_loads src = Inr (JArr [])"
    using load_Some_obj[of json_loads doc kvs, OF dflt] by simp
qed

text \<open>
  Claim C6 as stated fails: the well-formed wrapper \<^verbatim>\<open>{}\<close> has no payload field, and
  loading it returns the empty trace list instead of raising.
\<close>

theorem load_without_payload_counterexample:
  "load_traces_direct json_loads_literals (Some ''{}'') = Inr (JArr [])"
  by (simp add: load_traces_direct_def json_loads_literals_def)

theorem load_without_payload_returns_empty_witness:
  "load_traces_direct json_loads_literals (Some ''{}'') \<noteq> Inl ValueError
   \<and> load_traces_direct json_loads_literals None = Inl ValueError
   \<and> load_traces_direct json_loads_literals (Some ''{'') = Inl ValueError"
proof -
  have d: "json_loads_literals ''[]'' = Some (JArr [])" by (simp add: json_loads_literals_def)
  have a: "json_loads_literals ''{}'' = Some (JObj [])" by (simp add: json_loads_literals_def)
  have b: "json_loads_literals ''{'' = None" by (simp add: json_loads_literals_def)
  have "load_traces_direct json_loads_literals (Some ''{}'') = Inr (JArr [])"
    using load_without_payload_returns_empty[of json_loads_literals "Some ''{}''", OF d] a by simp
  moreover have "load_traces_direct json_loads_literals None = Inl ValueError"
    using load_without_payload_returns_empty[of json_loads_literals None, OF d] by simp
  moreover have "load_traces_direct json_loads_literals (Some ''{'') = Inl ValueError"
    using load_without_payload_returns_empty[of json_loads_literals "Some ''{''", OF d] b by simp
  ultimately show ?thesis by simp
qed

section \<open>Properties of warm-up exclusion\<close>

text \<open>
  Claim C3, as the code has it. For \<open>0 < warmupCount\<close> strictly below the number of
  qualifying traces, the exclusion keeps exactly the traces that are empty or whose
  trace identifier is not among those of the first \<open>warmupCount\<close> qualifying traces in
  the order of their minimum start timestamp. For \<open>warmupCount\<close> at or above the number
  of qualifying traces nothing is removed and the warning is printed; for
  \<open>warmupCount \<le> 0\<close> nothing is removed and nothing is printed.
\<close>

theorem warmup_exclusion_strictly_below:
  "exclude_warmup_iterations w traces =
     (if w \<le> 0 then (traces, [])
      else if int (length (filter is_benchmark_trace traces)) \<le> w then
        (traces, [OnlyIterationsFound (length (filter is_benchmark_trace traces)) w])
      else
        (filter (\<lambda>trace. \<not> (trace \<noteq> [] \<and> first_traceId trace \<in> warmup_ids_spec (nat w) traces)) traces,
         [ExcludedWarmupTraces
            (length traces -
             length (filter (\<lambda>trace. \<not> (trace \<noteq> [] \<and>
                        first_traceId trace \<in> warmup_ids_spec (nat w) traces)) traces))
            w]))"
  by (simp add: exclude_warmup_iterations_def warmup_ids_spec_def Let_def)

theorem warmup_exclusion_strictly_below_witness:
  "exclude_warmup_iterations 2
     [example_benchmark_trace ''c'' 300, example_benchmark_trace ''a'' 100,
      example_other_trace ''x'' 50, example_benchmark_trace ''b'' 200] =
   ([example_benchmark_trace ''c'' 300, example_other_trace ''x'' 50], [ExcludedWarmupTraces 2 2])"
proof -
  let ?ts = "[example_benchmark_trace ''c'' 300, example_benchmark_trace ''a'' 100,
      example_other_trace ''x'' 50, example_benchmark_trace ''b'' 200]"
  have n: "length (filter is_benchmark_trace ?ts) = 3" by code_simp
  have k: "filter (\<lambda>trace. \<not> (trace \<noteq> [] \<and> first_traceId trace \<in> warmup_ids_spec (nat 2) ?ts)) ?ts =
           [example_benchmark_trace ''c'' 300, example_other_trace ''x'' 50]" by code_simp
  show ?thesis
    using warmup_exclusion_strictly_below[of 2 ?ts] by (simp only: n k) simp
qed

text \<open>
  Claim C3 as stated fails where \<open>warmupCount\<close> equals the number of qualifying traces:
  with one qualifying trace and \<open>warmupCount = 1\<close> the claim has that trace removed, and
  the code keeps it and prints the warning.
\<close>

theorem warmup_exclusion_at_count_counterexample:
  "exclude_warmup_iterations 1 [example_benchmark_trace ''a'' 100] =
     ([example_benchmark_trace ''a'' 100], [OnlyIterationsFound 1 1])
   \<and> warmup_exclusion_spec 1 [example_benchmark_trace ''a'' 100] = []"
proof
  have n: "length (filter is_benchmark_trace [example_benchmark_trace ''a'' 100]) = 1" by code_simp
  show "exclude_warmup_iterations 1 [example_benchmark_trace ''a'' 100] =
     ([example_benchmark_trace ''a'' 100], [OnlyIterationsFound 1 1])"
    unfolding exclude_warmup_iterations_def Let_def n by simp
  show "warmup_exclusion_spec 1 [example_benchmark_trace ''a'' 100] = []" by code_simp
qed

section \<open>Errors of the interval-union computation\<close>









section \<open>Spans with a dangling parent in the recursive aggregation\<close>

text \<open>
  Claim C4 fails on the code. The trace holds a root that matches no pattern and a
  \<^verbatim>\<open>gmail\<close> span of 100 ms whose \<^verbatim>\<open>parentId\<close> names no span of the trace. The recursive
  aggregation starts from the spans without \<^verbatim>\<open>parentId\<close> only, never reaches the
  \<^verbatim>\<open>gmail\<close> span and reports 0 ms for one matching span; the interval-union computation
  reports its 100 ms.
\<close>

theorem dangling_parent_not_counted:
  "critical_io_by_pattern_trace (Suc depth) [''gmail''] ''total''
     [example_span ''r'' None ''http get'' 0 500000,
      example_span ''a'' (Some ''zz'') ''gmail.fetch'' 0 100000] =
     Some (Inr \<lparr>r_trace_id = ''t1'', r_critical_io_ms = 0, r_spans_count = 1,
                r_execution_pattern = ''recursive_hierarchical''\<rparr>)
   \<and> union_intervals_trace [''gmail'']
     [example_span ''r'' None ''http get'' 0 500000,
      example_span ''a'' (Some ''zz'') ''gmail.fetch'' 0 100000] =
     Inr \<lparr>r_trace_id = ''t1'', r_critical_io_ms = 100, r_spans_count = 1,
          r_execution_pattern = ''union_intervals''\<rparr>"
proof
  let ?r = "example_span ''r'' None ''http get'' 0 500000"
  let ?a = "example_span ''a'' (Some ''zz'') ''gmail.fetch'' 0 100000"
  have cs: "filter (name_matches [''gmail'']) [?r, ?a] = [?a]" by code_simp
  have lk: "build_span_lookup [] [?r, ?a] = Inr [(''r'', ?r), (''a'', ?a)]" by code_simp
  have rs: "filter (\<lambda>s. sp_parentId s = None) [?r, ?a] = [?r]" by code_simp
  have idr: "sp_id ?r = Some ''r''" by (simp add: example_span_def)
  have ch: "children_of [(''r'', ?r), (''a'', ?a)] ''r'' = []" by code_simp
  have av: "aggregate_values [''gmail''] ?r [] [] = 0" by code_simp
  have tid: "first_traceId [?r, ?a] = ''t1''" by code_simp
  have agg: "aggregate_span_recursive (Suc depth) [(''r'', ?r), (''a'', ?a)] [''gmail''] ?r = Some (Inr 0)"
    by (simp add: idr ch av)
  have fin: "calculate_final_critical_io_recursive (Suc depth) [?r, ?a] [''gmail''] = Some (Inr 0)"
    unfolding calculate_final_critical_io_recursive_def lk rs Let_def
    by (simp add: agg del: aggregate_span_recursive.simps)
  show "critical_io_by_pattern_trace (Suc depth) [''gmail''] ''total'' [?r, ?a] =
     Some (Inr \<lparr>r_trace_id = ''t1'', r_critical_io_ms = 0, r_spans_count = 1,
                r_execution_pattern = ''recursive_hierarchical''\<rparr>)"
    unfolding critical_io_by_pattern_trace_def cs Let_def fin tid by simp
  show "union_intervals_trace [''gmail''] [?r, ?a] =
     Inr \<lparr>r_trace_id = ''t1'', r_critical_io_ms = 100, r_spans_count = 1,
          r_execution_pattern = ''union_intervals''\<rparr>"
    by code_simp
qed

section \<open>The interval-union computation measures the union\<close>

lemma floor_milli: "\<lfloor>(of_int a / 1000 :: rat) * 1000\<rfloor> = a"
  by simp

lemma milli_le: "(of_int x / 1000 \<le> (of_int y / 1000 :: rat)) \<longleftrightarrow> x \<le> y"
  by (simp add: divide_le_cancel)

lemma iv_wfI:
  assumes "iv_start iv = of_int a / 1000" "iv_end iv = of_int b / 1000" "a \<le> b"
    "iv_duration iv = iv_end iv - iv_start iv"
  shows "iv_wf iv" and "iv_lo iv = a" and "iv_hi iv = b"
  using assms by (simp_all add: iv_wf_def iv_lo_def iv_hi_def)

lemma iv_wf_start_le_end:
  assumes "iv_wf a" "iv_wf b"
  shows "iv_start b \<le> iv_end a \<longleftrightarrow> iv_lo b \<le> iv_hi a"
proof -
  have s: "iv_start b = of_int (iv_lo b) / 1000" and e: "iv_end a = of_int (iv_hi a) / 1000"
    using assms by (simp_all add: iv_wf_def)
  show ?thesis by (subst s, subst e) (rule milli_le)
qed

lemma iv_wf_start_le_start:
  assumes "iv_wf a" "iv_wf b"
  shows "iv_start a \<le> iv_start b \<longleftrightarrow> iv_lo a \<le> iv_lo b"
proof -
  have s: "iv_start b = of_int (iv_lo b) / 1000" and e: "iv_start a = of_int (iv_lo a) / 1000"
    using assms by (simp_all add: iv_wf_def)
  show ?thesis by (subst s, subst e) (rule milli_le)
qed

lemma iv_wf_duration:
  assumes "iv_wf a"
  shows "iv_duration a = of_nat (card (iv_ticks a)) / 1000"
proof -
  have le: "iv_lo a \<le> iv_hi a" using assms by (simp add: iv_wf_def)
  have "iv_duration a = of_int (iv_hi a) / 1000 - of_int (iv_lo a) / 1000"
    using assms by (simp add: iv_wf_def)
  also have "\<dots> = of_int (iv_hi a - iv_lo a) / 1000" by (simp add: diff_divide_distrib)
  also have "of_int (iv_hi a - iv_lo a) = (of_nat (nat (iv_hi a - iv_lo a)) :: rat)"
    using le by simp
  finally show ?thesis by (simp add: iv_ticks_def)
qed

lemma merged_interval:
  fixes ms :: "string list option"
  assumes c: "iv_wf c" and n: "iv_wf n" and le: "iv_start n \<le> iv_end c"
    and so: "iv_start c \<le> iv_start n"
  defines "m \<equiv> c\<lparr>iv_end := max (iv_end c) (iv_end n),
                  iv_duration := max (iv_end c) (iv_end n) - iv_start c,
                  iv_merged_spans := ms\<rparr>"
  shows "iv_wf m" and "iv_start m = iv_start c" and "iv_ticks m = iv_ticks c \<union> iv_ticks n"
proof -
  have sc: "iv_start c = of_int (iv_lo c) / 1000" and ec: "iv_end c = of_int (iv_hi c) / 1000"
    and lc: "iv_lo c \<le> iv_hi c"
    using c by (simp_all add: iv_wf_def)
  have en: "iv_end n = of_int (iv_hi n) / 1000" and ln: "iv_lo n \<le> iv_hi n"
    using n by (simp_all add: iv_wf_def)
  have l1: "iv_lo n \<le> iv_hi c" using le iv_wf_start_le_end[OF c n] by simp
  have l2: "iv_lo c \<le> iv_lo n" using so iv_wf_start_le_start[OF c n] by simp
  have mx: "max (iv_end c) (iv_end n) = of_int (max (iv_hi c) (iv_hi n)) / 1000"
    unfolding ec en by (simp add: max_def divide_le_cancel)
  have sm: "iv_start m = of_int (iv_lo c) / 1000" by (simp add: m_def sc[symmetric])
  have em: "iv_end m = of_int (max (iv_hi c) (iv_hi n)) / 1000" by (simp add: m_def mx)
  have dm: "iv_duration m = iv_end m - iv_start m" by (simp add: m_def)
  have lm: "iv_lo c \<le> max (iv_hi c) (iv_hi n)" using lc by simp
  show "iv_wf m" by (rule iv_wfI(1)[OF sm em lm dm])
  show "iv_start m = iv_start c" by (simp add: m_def)
  have "iv_lo m = iv_lo c" by (rule iv_wfI(2)[OF sm em lm dm])
  moreover have "iv_hi m = max (iv_hi c) (iv_hi n)" by (rule iv_wfI(3)[OF sm em lm dm])
  ultimately show "iv_ticks m = iv_ticks c \<union> iv_ticks n"
    using l1 l2 lc ln by (auto simp: iv_ticks_def)
qed

lemma merge_loop_total:
  assumes "iv_wf cur" "\<forall>iv \<in> set rest. iv_wf iv" "sorted (map iv_start (cur # rest))"
  shows "sum_list (map iv_duration (merge_loop cur rest merged)) =
           sum_list (map iv_duration merged) +
           of_nat (card (iv_ticks cur \<union> (\<Union>iv \<in> set rest. iv_ticks iv))) / 1000"
  using assms
proof (induction rest arbitrary: cur merged)
  case Nil
  then show ?case by (simp add: iv_wf_duration)
next
  case (Cons n rest)
  have c: "iv_wf cur" and n: "iv_wf n" and r: "\<forall>iv \<in> set rest. iv_wf iv"
    using Cons.prems by simp_all
  have so: "iv_start cur \<le> iv_start n" using Cons.prems(3) by simp
  have srt_n: "sorted (map iv_start (n # rest))" using Cons.prems(3) by simp
  have ge_n: "\<forall>x \<in> set rest. iv_start n \<le> iv_start x" using Cons.prems(3) by simp
  show ?case
  proof (cases "iv_start n \<le> iv_end cur")
    case True
    define ms where "ms = Some ((case iv_merged_spans cur of None \<Rightarrow> [iv_span_id cur] | Some l \<Rightarrow> l) @ [iv_span_id n])"
    define m where "m = cur\<lparr>iv_end := max (iv_end cur) (iv_end n),
                  iv_duration := max (iv_end cur) (iv_end n) - iv_start cur,
                  iv_merged_spans := ms\<rparr>"
    have wm: "iv_wf m" and stm: "iv_start m = iv_start cur"
      and tm: "iv_ticks m = iv_ticks cur \<union> iv_ticks n"
      unfolding m_def by (rule merged_interval[OF c n True so])+
    have srt_m: "sorted (map iv_start (m # rest))"
      using ge_n so srt_n by (auto simp: stm)
    have step: "merge_loop cur (n # rest) merged = merge_loop m rest merged"
      using True by (simp add: m_def ms_def Let_def)
    show ?thesis
      unfolding step Cons.IH[OF wm r srt_m] tm by (simp add: Un_assoc)
  next
    case False
    have step: "merge_loop cur (n # rest) merged = merge_loop n rest (merged @ [cur])"
      using False by simp
    have lt: "iv_hi cur < iv_lo n" using False iv_wf_start_le_end[OF c n] by simp
    have lo_rest: "iv_lo n \<le> iv_lo x" if "x \<in> set rest" for x
      using that ge_n r iv_wf_start_le_start[OF n, of x] by blast
    have disj: "iv_ticks cur \<inter> (iv_ticks n \<union> (\<Union>iv \<in> set rest. iv_ticks iv)) = {}"
      using lt lo_rest by (fastforce simp: iv_ticks_def)
    have fin1: "finite (iv_ticks cur)" by (simp add: iv_ticks_def)
    have fin2: "finite (iv_ticks n \<union> (\<Union>iv \<in> set rest. iv_ticks iv))" by (simp add: iv_ticks_def)
    have "card (iv_ticks cur \<union> (iv_ticks n \<union> (\<Union>iv \<in> set rest. iv_ticks iv))) =
          card (iv_ticks cur) + card (iv_ticks n \<union> (\<Union>iv \<in> set rest. iv_ticks iv))"
      by (rule card_Un_disjoint[OF fin1 fin2 disj])
    then show ?thesis
      unfolding step Cons.IH[OF n r srt_n]
      by (simp add: iv_wf_duration[OF c] add_divide_distrib)
  qed
qed

lemma merge_intervals_total:
  assumes "\<forall>iv \<in> set ivs. iv_wf iv" "sorted (map iv_start ivs)"
  shows "sum_list (map iv_duration (merge_intervals ivs)) =
           of_nat (card (\<Union>iv \<in> set ivs. iv_ticks iv)) / 1000"
proof (cases ivs)
  case Nil
  then show ?thesis by (simp add: merge_intervals_def)
next
  case (Cons a rest)
  then show ?thesis
    using assms merge_loop_total[of a rest "[]"] by (simp add: merge_intervals_def)
qed

lemma span_interval_ok:
  assumes "sp_id s \<noteq> None" "0 \<le> get_duration s"
  shows "\<exists>iv. span_interval s = Inr iv \<and> iv_wf iv \<and> iv_ticks iv = span_ticks s"
proof -
  obtain i where i: "sp_id s = Some i" using assms(1) by blast
  define iv where "iv = \<lparr>iv_start = of_int (get_timestamp s) / 1000,
      iv_end = of_int (get_timestamp s) / 1000 + of_int (get_duration s) / 1000,
      iv_duration = of_int (get_duration s) / 1000, iv_span_id = i,
      iv_span_name = (case sp_name s of None \<Rightarrow> ''N/A'' | Some n \<Rightarrow> n),
      iv_merged_spans = None\<rparr>"
  have r: "span_interval s = Inr iv" by (simp add: span_interval_def Let_def i iv_def)
  have st: "iv_start iv = of_int (get_timestamp s) / 1000" by (simp add: iv_def)
  have en: "iv_end iv = of_int (get_timestamp s + get_duration s) / 1000"
    by (simp add: iv_def add_divide_distrib)
  have le: "get_timestamp s \<le> get_timestamp s + get_duration s" using assms(2) by simp
  have du: "iv_duration iv = iv_end iv - iv_start iv" by (simp add: iv_def)
  have "iv_wf iv" by (rule iv_wfI(1)[OF st en le du])
  moreover have "iv_lo iv = get_timestamp s" by (rule iv_wfI(2)[OF st en le du])
  moreover have "iv_hi iv = get_timestamp s + get_duration s" by (rule iv_wfI(3)[OF st en le du])
  ultimately show ?thesis using r by (simp add: iv_ticks_def span_ticks_def)
qed

lemma traverse_span_interval:
  assumes "\<forall>s \<in> set ss. sp_id s \<noteq> None \<and> 0 \<le> get_duration s"
  shows "\<exists>ivs. traverse span_interval ss = Inr ivs \<and> (\<forall>iv \<in> set ivs. iv_wf iv) \<and>
           (\<Union>iv \<in> set ivs. iv_ticks iv) = (\<Union>s \<in> set ss. span_ticks s) \<and>
           length ivs = length ss"
  using assms
proof (induction ss)
  case Nil
  then show ?case by simp
next
  case (Cons s ss)
  obtain iv where iv: "span_interval s = Inr iv" "iv_wf iv" "iv_ticks iv = span_ticks s"
    using span_interval_ok[of s] Cons.prems by auto
  obtain ivs where ivs: "traverse span_interval ss = Inr ivs" "\<forall>iv \<in> set ivs. iv_wf iv"
    "(\<Union>iv \<in> set ivs. iv_ticks iv) = (\<Union>s \<in> set ss. span_ticks s)" "length ivs = length ss"
    using Cons.IH Cons.prems by auto
  have "traverse span_interval (s # ss) = Inr (iv # ivs)" by (simp add: iv(1) ivs(1))
  then show ?case using iv ivs by auto
qed

lemma name_matches_iff:
  "name_matches ps s \<longleftrightarrow> (\<exists>pattern \<in> set ps. prefix pattern (lower (get_name s)))"
  by (simp add: name_matches_def startswith_def list_ex_iff)

lemma union_length_spec_filter:
  "union_length_spec ps trace =
     of_nat (card (\<Union>s \<in> set (filter (name_matches ps) trace). span_ticks s)) / 1000"
proof -
  have "{s \<in> set trace. \<exists>pattern \<in> set ps. prefix pattern (lower (get_name s))} =
        set (filter (name_matches ps) trace)"
    by (auto simp: name_matches_iff)
  then show ?thesis by (simp only: union_length_spec_def)
qed

lemma union_intervals_trace_value:
  assumes "\<forall>s \<in> set trace. name_matches ps s \<longrightarrow> sp_id s \<noteq> None \<and> 0 \<le> get_duration s"
  shows "\<exists>r. union_intervals_trace ps trace = Inr r \<and>
              r_critical_io_ms r = union_length_spec ps trace"
proof (cases "filter (name_matches ps) trace = []")
  case True
  then have "union_length_spec ps trace = 0" by (simp add: union_length_spec_filter)
  then show ?thesis using True by (auto simp: union_intervals_trace_def Let_def)
next
  case False
  then have ne: "trace \<noteq> []" by auto
  let ?io = "filter (name_matches ps) trace"
  have "\<forall>s \<in> set ?io. sp_id s \<noteq> None \<and> 0 \<le> get_duration s" using assms by simp
  then obtain ivs where ivs: "traverse span_interval ?io = Inr ivs" "\<forall>iv \<in> set ivs. iv_wf iv"
    "(\<Union>iv \<in> set ivs. iv_ticks iv) = (\<Union>s \<in> set ?io. span_ticks s)"
    using traverse_span_interval[of ?io] by blast
  let ?sorted = "sort_key iv_start ivs"
  have wf: "\<forall>iv \<in> set ?sorted. iv_wf iv" using ivs(2) by simp
  have srt: "sorted (map iv_start ?sorted)" by (rule sorted_sort_key)
  have "sum_list (map iv_duration (merge_intervals ?sorted)) =
          of_nat (card (\<Union>iv \<in> set ?sorted. iv_ticks iv)) / 1000"
    by (rule merge_intervals_total[OF wf srt])
  also have "\<dots> = union_length_spec ps trace"
    using ivs(3) by (simp add: union_length_spec_filter)
  finally have "sum_list (map iv_duration (merge_intervals ?sorted)) = union_length_spec ps trace" .
  then show ?thesis
    using False ne ivs(1) by (simp add: union_intervals_trace_def Let_def)
qed

lemma card_span_ticks: "0 \<le> get_duration s \<Longrightarrow> int (card (span_ticks s)) = get_duration s"
  by (simp add: span_ticks_def)

lemma non_overlapping_card:
  assumes "non_overlapping ss" "\<forall>s \<in> set ss. 0 \<le> get_duration s"
  shows "int (card (\<Union>s \<in> set ss. span_ticks s)) = (\<Sum>s\<leftarrow>ss. get_duration s)"
  using assms
proof (induction ss)
  case Nil
  then show ?case by simp
next
  case (Cons s ss)
  have disj: "span_ticks s \<inter> (\<Union>t \<in> set ss. span_ticks t) = {}" using Cons.prems(1) by auto
  have f1: "finite (span_ticks s)" by (simp add: span_ticks_def)
  have f2: "finite (\<Union>t \<in> set ss. span_ticks t)" by (simp add: span_ticks_def)
  have "card (span_ticks s \<union> (\<Union>t \<in> set ss. span_ticks t)) =
        card (span_ticks s) + card (\<Union>t \<in> set ss. span_ticks t)"
    by (rule card_Un_disjoint[OF f1 f2 disj])
  then show ?case using Cons.IH Cons.prems by (simp add: card_span_ticks)
qed

lemma sum_list_milli:
  "(\<Sum>s\<leftarrow>ss. (of_int (get_duration s) / 1000 :: rat)) = of_int (\<Sum>s\<leftarrow>ss. get_duration s) / 1000"
  by (induction ss) (simp_all add: add_divide_distrib)

lemma two_overlapping_card:
  assumes "(a::int) \<le> b" "c \<le> d" "max a c \<le> min b d"
  shows "int (card ({a..<b} \<union> {c..<d})) = max b d - min a c"
proof -
  have e: "{a..<b} \<union> {c..<d} = {min a c ..< max b d}" using assms by auto
  have "min a c \<le> max b d" using assms by linarith
  then have "int (card {min a c ..< max b d}) = max b d - min a c" by simp
  then show ?thesis by (simp only: e)
qed

text \<open>
  Claim C1. For a trace whose pattern-matching spans carry an \<^verbatim>\<open>id\<close> and a duration that is
  not negative, and for every pattern list, the interval-union critical I/O of the trace
  is the total length of the union of the intervals \<open>[start, start + duration)\<close> of the
  spans whose lower-cased name starts with one of the patterns. When these intervals are
  pairwise non-overlapping it is the sum of the durations. When there are two of them,
  \<open>[a, b)\<close> and \<open>[c, d)\<close>, that overlap or touch, it is \<open>max b d - min a c\<close>, which is
  strictly less than the sum \<open>(b - a) + (d - c)\<close> as soon as the overlap has positive
  length. Times are in milliseconds.
\<close>

theorem critical_io_is_union_length:
  assumes "\<forall>s \<in> set trace. name_matches ps s \<longrightarrow> sp_id s \<noteq> None \<and> 0 \<le> get_duration s"
  shows "\<exists>r. union_intervals_trace ps trace = Inr r
     \<and> r_critical_io_ms r = union_length_spec ps trace
     \<and> (non_overlapping (filter (name_matches ps) trace) \<longrightarrow>
          r_critical_io_ms r = (\<Sum>s\<leftarrow>filter (name_matches ps) trace. of_int (get_duration s) / 1000))
     \<and> (\<forall>s1 s2. filter (name_matches ps) trace = [s1, s2] \<and>
            max (get_timestamp s1) (get_timestamp s2)
              \<le> min (get_timestamp s1 + get_duration s1) (get_timestamp s2 + get_duration s2) \<longrightarrow>
          r_critical_io_ms r =
            of_int (max (get_timestamp s1 + get_duration s1) (get_timestamp s2 + get_duration s2)
                    - min (get_timestamp s1) (get_timestamp s2)) / 1000
          \<and> (max (get_timestamp s1) (get_timestamp s2)
                < min (get_timestamp s1 + get_duration s1) (get_timestamp s2 + get_duration s2) \<longrightarrow>
              r_critical_io_ms r < of_int (get_duration s1) / 1000 + of_int (get_duration s2) / 1000))"
proof -
  let ?io = "filter (name_matches ps) trace"
  obtain r where r: "union_intervals_trace ps trace = Inr r"
    and v: "r_critical_io_ms r = union_length_spec ps trace"
    using union_intervals_trace_value[OF assms] by blast
  have nn: "\<forall>s \<in> set ?io. 0 \<le> get_duration s" using assms by simp
  have u: "r_critical_io_ms r = of_int (int (card (\<Union>s \<in> set ?io. span_ticks s))) / 1000"
    by (simp add: v union_length_spec_filter)
  have a: "r_critical_io_ms r = (\<Sum>s\<leftarrow>?io. of_int (get_duration s) / 1000)"
    if "non_overlapping ?io"
    unfolding u non_overlapping_card[OF that nn] by (simp only: sum_list_milli)
  have b: "r_critical_io_ms r =
            of_int (max (get_timestamp s1 + get_duration s1) (get_timestamp s2 + get_duration s2)
                    - min (get_timestamp s1) (get_timestamp s2)) / 1000
          \<and> (max (get_timestamp s1) (get_timestamp s2)
                < min (get_timestamp s1 + get_duration s1) (get_timestamp s2 + get_duration s2) \<longrightarrow>
              r_critical_io_ms r < of_int (get_duration s1) / 1000 + of_int (get_duration s2) / 1000)"
    if h: "?io = [s1, s2] \<and> max (get_timestamp s1) (get_timestamp s2)
              \<le> min (get_timestamp s1 + get_duration s1) (get_timestamp s2 + get_duration s2)"
    for s1 s2
  proof -
    have d1: "0 \<le> get_duration s1" and d2: "0 \<le> get_duration s2" using nn h by simp_all
    have l1: "get_timestamp s1 \<le> get_timestamp s1 + get_duration s1"
      and l2: "get_timestamp s2 \<le> get_timestamp s2 + get_duration s2" using d1 d2 by simp_all
    have ov: "max (get_timestamp s1) (get_timestamp s2)
              \<le> min (get_timestamp s1 + get_duration s1) (get_timestamp s2 + get_duration s2)"
      using h by blast
    have un: "(\<Union>s \<in> set ?io. span_ticks s) = span_ticks s1 \<union> span_ticks s2" using h by simp
    have c: "int (card (span_ticks s1 \<union> span_ticks s2)) =
             max (get_timestamp s1 + get_duration s1) (get_timestamp s2 + get_duration s2)
               - min (get_timestamp s1) (get_timestamp s2)"
      unfolding span_ticks_def by (rule two_overlapping_card[OF l1 l2 ov])
    have e: "r_critical_io_ms r =
            of_int (max (get_timestamp s1 + get_duration s1) (get_timestamp s2 + get_duration s2)
                    - min (get_timestamp s1) (get_timestamp s2)) / 1000"
      unfolding u un c ..
    have s: "r_critical_io_ms r < of_int (get_duration s1) / 1000 + of_int (get_duration s2) / 1000"
      if st: "max (get_timestamp s1) (get_timestamp s2)
                < min (get_timestamp s1 + get_duration s1) (get_timestamp s2 + get_duration s2)"
    proof -
      have "max (get_timestamp s1 + get_duration s1) (get_timestamp s2 + get_duration s2)
                    - min (get_timestamp s1) (get_timestamp s2) < get_duration s1 + get_duration s2"
        using st by (auto simp: max_def min_def split: if_splits)
      then have "(of_int (max (get_timestamp s1 + get_duration s1) (get_timestamp s2 + get_duration s2)
                    - min (get_timestamp s1) (get_timestamp s2)) :: rat)
              < of_int (get_duration s1 + get_duration s2)"
        by (simp only: of_int_less_iff)
      then show ?thesis unfolding e by (simp add: add_divide_distrib[symmetric] divide_strict_right_mono)
    qed
    show ?thesis using e s by blast
  qed
  show ?thesis using r v a b by blast
qed

theorem critical_io_is_union_length_witness:
  "map_sum id r_critical_io_ms
     (union_intervals_trace [''gmail'']
        [example_span ''r'' None ''http get'' 0 500000,
         example_span ''b'' (Some ''r'') ''Gmail.list'' 50000 150000,
         example_span ''a'' (Some ''r'') ''gmail.fetch'' 0 100000]) = Inr 200"
proof -
  let ?b = "example_span ''b'' (Some ''r'') ''Gmail.list'' 50000 150000"
  let ?a = "example_span ''a'' (Some ''r'') ''gmail.fetch'' 0 100000"
  let ?t = "[example_span ''r'' None ''http get'' 0 500000, ?b, ?a]"
  have io: "filter (name_matches [''gmail'']) ?t = [?b, ?a]" by code_simp
  have ok: "\<forall>s \<in> set ?t. name_matches [''gmail''] s \<longrightarrow> sp_id s \<noteq> None \<and> 0 \<le> get_duration s"
    by (simp add: example_span_def get_duration_def)
  have g: "get_timestamp ?b = 50000" "get_duration ?b = 150000" "get_timestamp ?a = 0"
    "get_duration ?a = 100000"
    by (simp_all add: example_span_def get_duration_def get_timestamp_def)
  from critical_io_is_union_length[OF ok] obtain r where
    r: "union_intervals_trace [''gmail''] ?t = Inr r" and
    two: "\<forall>s1 s2. filter (name_matches [''gmail'']) ?t = [s1, s2] \<and>
            max (get_timestamp s1) (get_timestamp s2)
              \<le> min (get_timestamp s1 + get_duration s1) (get_timestamp s2 + get_duration s2) \<longrightarrow>
          r_critical_io_ms r =
            of_int (max (get_timestamp s1 + get_duration s1) (get_timestamp s2 + get_duration s2)
                    - min (get_timestamp s1) (get_timestamp s2)) / 1000
          \<and> (max (get_timestamp s1) (get_timestamp s2)
                < min (get_timestamp s1 + get_duration s1) (get_timestamp s2 + get_duration s2) \<longrightarrow>
              r_critical_io_ms r < of_int (get_duration s1) / 1000 + of_int (get_duration s2) / 1000)"
    by blast
  have "r_critical_io_ms r = 200"
    using two[rule_format, of ?b ?a] io by (simp add: g)
  then show ?thesis by (simp add: r)
qed

section \<open>The combination step of the recursive aggregation\<close>

lemma collect_Some_Inr:
  "collect f xs = Some (Inr vs) \<Longrightarrow> list_all2 (\<lambda>x v. f x = Some (Inr v)) xs vs"
proof (induction xs arbitrary: vs)
  case Nil
  then show ?case by simp
next
  case (Cons x xs)
  then show ?case by (auto split: option.splits sum.splits)
qed

lemma collect_length: "collect f xs = Some (Inr vs) \<Longrightarrow> length vs = length xs"
  by (drule collect_Some_Inr) (simp add: list_all2_lengthD)


















section \<open>Termination of the recursive aggregation on a forest\<close>




























section \<open>The aggregator leaves the parser as it found it\<close>


end
